theory Spec2Isabelle
  imports Complex_Main
begin

section \<open>The BTC turtle monitor (btc\_turtle\_monitor.py)\<close>

text \<open>
  The monitor polls a price once per tick, keeps a bounded list of the prices seen, and
  derives BUY / SELL signals from a channel breakout rule. Everything lives in three
  module-level variables (\<open>prices\<close>, \<open>position\<close>, \<open>last_signal\<close>) that \<open>main_loop\<close>
  mutates; the embedding passes them around as one record.

  Conventions of the embedding:
  \<^item> a price is a Python float obtained by \<open>float(...)\<close> from the JSON reply. Prices are
    modelled as \<open>real\<close>: the code only compares prices with \<open><\<close> and \<open>>\<close> and takes
    \<open>max\<close>/\<open>min\<close> of them, which on finite floats are the exact comparisons of the reals
    they denote. NaN and the infinities are outside the model.
  \<^item> Python integers (\<open>position\<close>, list lengths, slice bounds) are \<open>int\<close>.
  \<^item> the strings \<open>"BUY"\<close> and \<open>"SELL"\<close> are the only signal values the program builds;
    they are the two constructors of \<open>signal\<close>, and Python's \<open>None\<close> is \<open>None\<close>.
  \<^item> an expression that can raise returns \<open>py_error + _\<close>, with \<open>Inl\<close> the exception. A
    block that changes the state and can raise returns \<open>py_error \<times> monitor + monitor\<close>:
    \<open>Inl\<close> holds the exception and the state at the moment it is raised, which is what
    the globals and the console hold when the program dies of it.
  \<^item> what the program prints, and each \<open>time.sleep\<close>, is appended to the \<open>console\<close> field
    as an \<open>event\<close>; the clock (\<open>now_str\<close>) is left out.
  \<^item> the outside world is an input of a tick: the outcome of the HTTP request in
    \<open>fetch_price\<close> (\<open>Some\<close> price, or \<open>None\<close> when the \<open>try\<close> block raised), the
    outcome of \<open>subprocess.run\<close> in \<open>send_signal_notification\<close>, and whether standard
    output can encode text that is not ASCII.
  \<^item> \<open>print\<close> raises \<open>UnicodeEncodeError\<close> when the text has a character standard output
    cannot encode. The notification message (lines 81 to 86) is written in Chinese, so
    the two prints of \<open>send_signal_notification\<close> can fail that way. Every other line the
    program prints is taken to be ASCII (the text of an exception of the price request
    included) and to print.
\<close>

subsection \<open>Configuration\<close>

definition ENTRY_LOOKBACK :: int where
  "ENTRY_LOOKBACK = 20"

definition EXIT_LOOKBACK :: int where
  "EXIT_LOOKBACK = 10"

definition MIN_HISTORY :: int where
  "MIN_HISTORY = max ENTRY_LOOKBACK EXIT_LOOKBACK + 1"

text \<open>The literal \<open>5000\<close> of line 118, the cap on the length of \<open>prices\<close>.\<close>

definition H_MAX :: int where
  "H_MAX = 5000"

subsection \<open>Data\<close>

datatype signal = BUY | SELL

datatype py_error = IndexError | ValueError | UnicodeEncodeError

text \<open>
  What \<open>subprocess.run(..., check=True)\<close> does: it returns, or it raises an exception.
  The flag of \<open>Raised\<close> says whether the text of the exception has characters outside
  ASCII. That of \<open>CalledProcessError\<close> (the command exits with a non-zero status) quotes
  the command line, and with it the Chinese message: its flag is \<open>True\<close>. That of
  \<open>FileNotFoundError\<close> (no \<open>openclaw\<close> on the path) is ASCII: its flag is \<open>False\<close>.
\<close>

datatype run_result = Completed | Raised bool

datatype event =
    FetchError
  | PriceLine real int
  | SignalBlock signal real int
  | NotifySent signal real
  | NotifyError
  | Sleep
  | Banner

record monitor =
  prices :: "real list"
  position :: int
  last_signal :: "signal option"
  console :: "event list"

text \<open>Lines 17 to 19: the module-level initial values.\<close>

definition initial :: monitor where
  "initial = \<lparr>prices = [], position = 0, last_signal = None, console = []\<rparr>"

definition emit :: "event \<Rightarrow> monitor \<Rightarrow> monitor" where
  "emit e st = st\<lparr>console := console st @ [e]\<rparr>"

subsection \<open>Python list primitives\<close>

text \<open>\<open>xs[i]\<close>: a negative index counts from the end, anything out of range raises.\<close>

definition py_index :: "'a list \<Rightarrow> int \<Rightarrow> py_error + 'a" where
  "py_index xs i =
     (let k = (if i < 0 then i + int (length xs) else i)
      in if k < 0 \<or> int (length xs) \<le> k then Inl IndexError else Inr (xs ! nat k))"

text \<open>
  \<open>xs[i:j]\<close> with both bounds given and step 1: a negative bound has the length added and
  is then clipped at 0, a non-negative one is clipped at the length; a slice never raises.
\<close>

definition slice_bound :: "int \<Rightarrow> int \<Rightarrow> int" where
  "slice_bound n i = (if i < 0 then max 0 (n + i) else min n i)"

definition py_slice :: "'a list \<Rightarrow> int \<Rightarrow> int \<Rightarrow> 'a list" where
  "py_slice xs i j =
     (let lo = slice_bound (int (length xs)) i;
          hi = slice_bound (int (length xs)) j
      in take (nat (hi - lo)) (drop (nat lo) xs))"

text \<open>
  \<open>max(xs)\<close> and \<open>min(xs)\<close> on a list: \<open>ValueError\<close> on the empty list; otherwise the
  first element is the running result and a later one replaces it when it is strictly
  greater (smaller).
\<close>

fun py_max :: "real list \<Rightarrow> py_error + real" where
  "py_max [] = Inl ValueError"
| "py_max (x # xs) = Inr (fold (\<lambda>y m. if y > m then y else m) xs x)"

fun py_min :: "real list \<Rightarrow> py_error + real" where
  "py_min [] = Inl ValueError"
| "py_min (x # xs) = Inr (fold (\<lambda>y m. if y < m then y else m) xs x)"

text \<open>\<open>xs.pop(0)\<close>, the popped value dropped: \<open>IndexError\<close> on the empty list.\<close>

fun pop_front :: "'a list \<Rightarrow> py_error + 'a list" where
  "pop_front [] = Inl IndexError"
| "pop_front (x # xs) = Inr xs"

subsection \<open>The functions of the module\<close>

text \<open>
  \<open>fetch_price\<close> (lines 26 to 43). The argument is what the \<open>try\<close> block produced; on an
  exception the function prints an error line and returns \<open>None\<close>.
\<close>

definition fetch_price :: "real option \<Rightarrow> monitor \<Rightarrow> real option \<times> monitor" where
  "fetch_price reply st =
     (case reply of
        Some p \<Rightarrow> (Some p, st)
      | None \<Rightarrow> (None, emit FetchError st))"

text \<open>\<open>generate_signal\<close> (lines 46 to 73), reading the globals \<open>prices\<close> and \<open>position\<close>.\<close>

definition generate_signal :: "monitor \<Rightarrow> py_error + signal option" where
  "generate_signal st =
     (if int (length (prices st)) < MIN_HISTORY then Inr None
      else
        case py_index (prices st) (- 1) of
          Inl e \<Rightarrow> Inl e
        | Inr close \<Rightarrow>
            (case py_max (py_slice (prices st) (- ENTRY_LOOKBACK - 1) (- 1)) of
               Inl e \<Rightarrow> Inl e
             | Inr recent_high \<Rightarrow>
                 (case py_min (py_slice (prices st) (- EXIT_LOOKBACK - 1) (- 1)) of
                    Inl e \<Rightarrow> Inl e
                  | Inr recent_low \<Rightarrow>
                      if position st = 0 \<and> close > recent_high then Inr (Some BUY)
                      else if position st = 1 \<and> close < recent_low then Inr (Some SELL)
                      else Inr None)))"

text \<open>
  \<open>print_line unicode non_ascii e\<close> is a \<open>print\<close> of a line, shown on the console as the
  event \<open>e\<close>: \<open>unicode\<close> says whether standard output encodes text outside ASCII,
  \<open>non_ascii\<close> whether the line has such text. Nothing is written when it raises.
\<close>

definition print_line :: "bool \<Rightarrow> bool \<Rightarrow> event \<Rightarrow> monitor \<Rightarrow> py_error \<times> monitor + monitor" where
  "print_line unicode non_ascii e st =
     (if non_ascii \<and> \<not> unicode then Inl (UnicodeEncodeError, st) else Inr (emit e st))"

text \<open>
  \<open>send_signal_notification\<close> (lines 79 to 100); \<open>world\<close> is the outcome of
  \<open>subprocess.run\<close> and whether standard output encodes text outside ASCII. The inner
  \<open>case\<close> is the \<open>try\<close> block: \<open>subprocess.run\<close>, then the print of line 98, whose line
  holds the message; \<open>Inl\<close> is an exception the block raised, as the flag that says
  whether its text is outside ASCII (the text of a \<open>UnicodeEncodeError\<close> is ASCII). The
  outer \<open>case\<close> is the handler \<open>except Exception as e\<close>: the print of line 100 shows
  the text of \<open>e\<close> and is itself outside any \<open>try\<close>. The function touches no global.
\<close>

definition send_signal_notification ::
    "run_result \<times> bool \<Rightarrow> signal \<Rightarrow> real \<Rightarrow> monitor \<Rightarrow> py_error \<times> monitor + monitor" where
  "send_signal_notification world sig price st =
     (case (case fst world of
              Raised non_ascii \<Rightarrow> Inl non_ascii
            | Completed \<Rightarrow>
                (case print_line (snd world) True (NotifySent sig price) st of
                   Inl err \<Rightarrow> Inl False
                 | Inr st' \<Rightarrow> Inr st')) of
        Inl non_ascii \<Rightarrow> print_line (snd world) non_ascii NotifyError st
      | Inr st' \<Rightarrow> Inr st')"

text \<open>
  The pieces of one iteration of the \<open>while True\<close> loop of \<open>main_loop\<close>.
  \<open>append_price\<close> is lines 117 to 120.
\<close>

definition append_price :: "real \<Rightarrow> monitor \<Rightarrow> py_error \<times> monitor + monitor" where
  "append_price price st =
     (let st1 = st\<lparr>prices := prices st @ [price]\<rparr>
      in if int (length (prices st1)) > H_MAX
         then (case pop_front (prices st1) of
                 Inl e \<Rightarrow> Inl (e, st1)
               | Inr rest \<Rightarrow> Inr (st1\<lparr>prices := rest\<rparr>))
         else Inr st1)"

text \<open>
  \<open>handle_signal\<close> is lines 125 to 141, with the value of the local \<open>signal\<close> as an
  argument. Only the call of \<open>send_signal_notification\<close>, the last statement, can raise.
\<close>

definition handle_signal ::
    "signal option \<Rightarrow> real \<Rightarrow> run_result \<times> bool \<Rightarrow> monitor \<Rightarrow> py_error \<times> monitor + monitor" where
  "handle_signal signal price world st =
     (case signal of
        None \<Rightarrow> Inr st
      | Some s \<Rightarrow>
          if Some s \<noteq> last_signal st then
            (let st1 = st\<lparr>last_signal := Some s\<rparr>;
                 st2 = (case s of BUY \<Rightarrow> st1\<lparr>position := 1\<rparr> | SELL \<Rightarrow> st1\<lparr>position := 0\<rparr>);
                 st3 = emit (SignalBlock s price (position st2)) st2
             in send_signal_notification world s price st3)
          else Inr st)"

text \<open>
  \<open>loop_body\<close> is one iteration, lines 112 to 143. Its first argument is what the outside
  world does during the tick: the reply to the price request and, for the notification
  if one is sent, the outcome of \<open>subprocess.run\<close> and what standard output encodes.
\<close>

definition loop_body ::
    "real option \<times> run_result \<times> bool \<Rightarrow> monitor \<Rightarrow> py_error \<times> monitor + monitor" where
  "loop_body env st =
     (case fetch_price (fst env) st of
        (None, st0) \<Rightarrow> Inr (emit Sleep st0)
      | (Some price, st0) \<Rightarrow>
          (case append_price price st0 of
             Inl e \<Rightarrow> Inl e
           | Inr st1 \<Rightarrow>
               (let st2 = emit (PriceLine price (int (length (prices st1)))) st1
                in case generate_signal st2 of
                     Inl e \<Rightarrow> Inl (e, st2)
                   | Inr signal \<Rightarrow>
                       (case handle_signal signal price (snd env) st2 of
                          Inl e \<Rightarrow> Inl e
                        | Inr st3 \<Rightarrow> Inr (emit Sleep st3)))))"

text \<open>
  The loop never ends by itself. \<open>while_loop envs st\<close> is the state after as many
  iterations as \<open>envs\<close> has entries, or the exception that ended the program before
  (with the state it left); \<open>main_loop\<close> prints the banner first (lines 106 to 109).
\<close>

fun while_loop ::
    "(real option \<times> run_result \<times> bool) list \<Rightarrow> monitor \<Rightarrow> py_error \<times> monitor + monitor" where
  "while_loop [] st = Inr st"
| "while_loop (env # envs) st =
     (case loop_body env st of Inl e \<Rightarrow> Inl e | Inr st' \<Rightarrow> while_loop envs st')"

definition main_loop ::
    "(real option \<times> run_result \<times> bool) list \<Rightarrow> monitor \<Rightarrow> py_error \<times> monitor + monitor" where
  "main_loop envs st = while_loop envs (emit Banner st)"

text \<open>The signals of the signal blocks printed so far, oldest first.\<close>

fun emitted :: "event list \<Rightarrow> signal list" where
  "emitted [] = []"
| "emitted (SignalBlock s p q # es) = s # emitted es"
| "emitted (e # es) = emitted es"

subsection \<open>Notions used to state the properties\<close>

text \<open>The state a block or a run ends in, whether it returned or raised.\<close>

fun final :: "py_error \<times> monitor + monitor \<Rightarrow> monitor" where
  "final (Inl (e, st)) = st"
| "final (Inr st) = st"

text \<open>
  \<open>fatal world\<close>: \<open>subprocess.run\<close> raises an exception whose text is outside ASCII and
  standard output cannot encode it. \<open>calm envs\<close>: no tick of \<open>envs\<close> is like that.
  \<open>notify_line\<close> is the line \<open>send_signal_notification\<close> prints otherwise.
\<close>

definition fatal :: "run_result \<times> bool \<Rightarrow> bool" where
  "fatal world = (fst world = Raised True \<and> \<not> snd world)"

definition calm :: "(real option \<times> run_result \<times> bool) list \<Rightarrow> bool" where
  "calm envs = list_all (\<lambda>env. \<not> fatal (snd env)) envs"

definition notify_line :: "run_result \<times> bool \<Rightarrow> signal \<Rightarrow> real \<Rightarrow> event" where
  "notify_line world sig price =
     (if fst world = Completed \<and> snd world then NotifySent sig price else NotifyError)"

text \<open>The prices a sequence of ticks delivers: the replies of the ticks whose request did
  not fail, in order.\<close>

fun fetched :: "(real option \<times> run_result \<times> bool) list \<Rightarrow> real list" where
  "fetched [] = []"
| "fetched ((None, d) # envs) = fetched envs"
| "fetched ((Some p, d) # envs) = p # fetched envs"

text \<open>The state of an iteration that got the price \<open>p\<close>, when it reaches line 124: the price
  is appended, the cap is enforced and the price line is printed.\<close>

definition after_append :: "real \<Rightarrow> monitor \<Rightarrow> monitor" where
  "after_append p st =
     st\<lparr>prices := (if int (length (prices st)) < H_MAX then prices st @ [p]
                    else tl (prices st) @ [p]),
         console := console st @ [PriceLine p (int (length
            (if int (length (prices st)) < H_MAX then prices st @ [p]
             else tl (prices st) @ [p])))]\<rparr>"

text \<open>The state after lines 127 to 138: the signal \<open>s\<close> is recorded, the position set and the
  signal block printed.\<close>

definition applied :: "signal \<Rightarrow> real \<Rightarrow> monitor \<Rightarrow> monitor" where
  "applied s price st =
     st\<lparr>position := (case s of BUY \<Rightarrow> 1 | SELL \<Rightarrow> 0),
        last_signal := Some s,
        console := console st @ [SignalBlock s price (case s of BUY \<Rightarrow> 1 | SELL \<Rightarrow> 0)]\<rparr>"

text \<open>Two invariants of the loop. \<open>debounced\<close>: no signal was printed twice in a row, and
  \<open>last_signal\<close> is the signal printed last. \<open>in_step\<close>: the position is 1 with
  \<open>last_signal = "BUY"\<close>, or 0 with any other \<open>last_signal\<close>.\<close>

definition debounced :: "monitor \<Rightarrow> bool" where
  "debounced st =
     (distinct_adj (emitted (console st))
      \<and> (emitted (console st) = [] \<or> last_signal st = Some (last (emitted (console st)))))"

definition in_step :: "monitor \<Rightarrow> bool" where
  "in_step st =
     (position st = 1 \<and> last_signal st = Some BUY
      \<or> position st = 0 \<and> last_signal st \<noteq> Some BUY)"

text \<open>
  A run of 32 ticks: twenty prices of 10, a breakout to 11, ten more prices of 11, then a
  breakdown to 9; for the last one \<open>openclaw\<close> is not found and standard output is ASCII.
  \<open>ascii_breakout\<close> is 21 ticks on an ASCII standard output: twenty prices of 10, then a
  breakout to 11 for which \<open>openclaw\<close> exits with a non-zero status.
\<close>

definition round_trip :: "(real option \<times> run_result \<times> bool) list" where
  "round_trip = replicate 20 (Some 10, Completed, True) @ [(Some 11, Completed, True)]
                   @ replicate 10 (Some 11, Completed, True) @ [(Some 9, Raised False, False)]"

definition ascii_breakout :: "(real option \<times> run_result \<times> bool) list" where
  "ascii_breakout = replicate 20 (Some 10, Completed, False) @ [(Some 11, Raised True, False)]"

section \<open>Properties\<close>

subsection \<open>Python primitives on the inputs the monitor gives them\<close>

lemma py_index_last:
  "xs \<noteq> [] \<Longrightarrow> py_index xs (- 1) = Inr (last xs)"
  by (simp add: py_index_def Let_def last_conv_nth nat_diff_distrib' of_nat_diff
      Suc_leI int_ops)

text \<open>The slice \<open>xs[-k-1:-1]\<close> of a non-empty list: the \<open>k\<close> elements before the last one,
  or all of them when there are fewer.\<close>

lemma py_slice_before_last:
  "0 \<le> k \<Longrightarrow> py_slice (hist @ [c]) (- k - 1) (- 1) = drop (length hist - nat k) hist"
  by (simp add: py_slice_def slice_bound_def Let_def nat_diff_distrib' max_def)

lemma max_fun_eq: "(\<lambda>y m. if y > m then y else m) = (max :: real \<Rightarrow> real \<Rightarrow> real)"
  by (auto simp: fun_eq_iff max_def)

lemma min_fun_eq: "(\<lambda>y m. if y < m then y else m) = (min :: real \<Rightarrow> real \<Rightarrow> real)"
  by (auto simp: fun_eq_iff min_def)

lemma py_max_Max: "xs \<noteq> [] \<Longrightarrow> py_max xs = Inr (Max (set xs))"
  by (cases xs) (simp_all add: max_fun_eq Max.set_eq_fold del: set_simps)

lemma py_min_Min: "xs \<noteq> [] \<Longrightarrow> py_min xs = Inr (Min (set xs))"
  by (cases xs) (simp_all add: min_fun_eq Min.set_eq_fold del: set_simps)

text \<open>A history with at least \<open>k + 1\<close> samples is some older samples, then \<open>k\<close> samples,
  then the newest one.\<close>

lemma split_history:
  assumes "int (length ps) \<ge> k + 1" "0 \<le> k"
  shows "\<exists>older window c. ps = older @ window @ [c] \<and> int (length window) = k"
proof -
  from assms have ne: "ps \<noteq> []" by auto
  let ?b = "butlast ps"
  have lb: "int (length ?b) \<ge> k" using assms ne by (simp add: of_nat_diff Suc_leI)
  let ?n = "length ?b - nat k"
  have "ps = (take ?n ?b @ drop ?n ?b) @ [last ps]" using ne by simp
  then have "ps = take ?n ?b @ drop ?n ?b @ [last ps]" by (simp only: append_assoc)
  moreover have "int (length (drop ?n ?b)) = k" using lb assms(2) by simp
  ultimately show ?thesis by blast
qed

subsection \<open>generate\_signal\<close>

text \<open>With 21 samples or more, no primitive raises and the two windows are the last 20 and
  the last 10 samples before the newest.\<close>

lemma generate_signal_full:
  assumes "prices st = hist @ [c]" and "20 \<le> length hist"
  shows "generate_signal st =
    Inr (if position st = 0 \<and> Max (set (drop (length hist - 20) hist)) < c then Some BUY
         else if position st = 1 \<and> c < Min (set (drop (length hist - 10) hist)) then Some SELL
         else None)"
proof -
  have a: "py_index (prices st) (- 1) = Inr c"
    using assms(1) by (simp add: py_index_last)
  have b: "py_slice (prices st) (- ENTRY_LOOKBACK - 1) (- 1) = drop (length hist - 20) hist"
    using assms(1) py_slice_before_last [of 20 hist c] by (simp add: ENTRY_LOOKBACK_def)
  have c: "py_slice (prices st) (- EXIT_LOOKBACK - 1) (- 1) = drop (length hist - 10) hist"
    using assms(1) py_slice_before_last [of 10 hist c] by (simp add: EXIT_LOOKBACK_def)
  have d: "drop (length hist - 20) hist \<noteq> []" "drop (length hist - 10) hist \<noteq> []"
    using assms(2) by auto
  have e: "\<not> int (length (prices st)) < MIN_HISTORY"
    using assms by (simp add: MIN_HISTORY_def ENTRY_LOOKBACK_def EXIT_LOOKBACK_def)
  show ?thesis
    unfolding generate_signal_def using e
    by (simp add: a b c py_max_Max [OF d(1)] py_min_Min [OF d(2)])
qed

lemma generate_signal_short:
  "int (length (prices st)) < MIN_HISTORY \<Longrightarrow> generate_signal st = Inr None"
  by (simp add: generate_signal_def)

lemma generate_signal_total: "\<exists>r. generate_signal st = Inr r"
proof (cases "int (length (prices st)) < MIN_HISTORY")
  case True
  then show ?thesis by (simp add: generate_signal_short)
next
  case False
  then have "int (length (prices st)) \<ge> 20 + 1"
    by (simp add: MIN_HISTORY_def ENTRY_LOOKBACK_def EXIT_LOOKBACK_def)
  then have ne: "prices st \<noteq> []" and "20 \<le> length (butlast (prices st))" by auto
  then show ?thesis
    using generate_signal_full [of st "butlast (prices st)" "last (prices st)"] by simp
qed

text \<open>
  \<^bold>\<open>C1.\<close> Take a history with at least \<open>max(N, M) + 1\<close> samples and let \<open>window\<close> be the
  \<open>N\<close> samples just before the newest sample \<open>close\<close>. If \<open>close\<close> is strictly above the
  maximum of \<open>window\<close> and the position is 0 (flat), \<open>generate_signal\<close> returns \<open>"BUY"\<close>.
  If \<open>close\<close> equals that maximum, it returns \<open>None\<close> (whatever the position).
  By \<open>split_history\<close> every history of that length has the form \<open>older @ window @ [close]\<close>.
\<close>

theorem breakout_gives_BUY:
  assumes "max ENTRY_LOOKBACK EXIT_LOOKBACK + 1 \<le> int (length (prices st))"
    and "prices st = older @ window @ [close]"
    and "int (length window) = ENTRY_LOOKBACK"
  shows "(position st = 0 \<and> Max (set window) < close \<longrightarrow> generate_signal st = Inr (Some BUY))
       \<and> (close = Max (set window) \<longrightarrow> generate_signal st = Inr None)"
proof -
  let ?hist = "older @ window"
  have len: "length window = 20"
    using assms(3) by (simp add: ENTRY_LOOKBACK_def)
  have entry: "drop (length ?hist - 20) ?hist = window"
    using len by simp
  have exit: "drop (length ?hist - 10) ?hist = drop 10 window"
    using len by simp
  have full: "generate_signal st =
      Inr (if position st = 0 \<and> Max (set window) < close then Some BUY
           else if position st = 1 \<and> close < Min (set (drop 10 window)) then Some SELL
           else None)"
    using generate_signal_full [of st ?hist close] assms(2) len
    by (simp only: entry exit) simp
  have "drop 10 window \<noteq> []"
    using len by simp
  then obtain x where x: "x \<in> set (drop 10 window)"
    by (cases "drop 10 window") auto
  then have "x \<in> set window"
    by (rule in_set_dropD)
  then have "x \<le> Max (set window)"
    by simp
  moreover have "Min (set (drop 10 window)) \<le> x"
    using x by simp
  ultimately have "Min (set (drop 10 window)) \<le> Max (set window)"
    by (rule order_trans [rotated])
  then show ?thesis
    by (simp add: full)
qed

text \<open>Twenty samples at 10, then 11: a breakout. Twenty samples at 10, then 10: a tie.\<close>

theorem breakout_gives_BUY_witness:
  "max ENTRY_LOOKBACK EXIT_LOOKBACK + 1 \<le> int (length (replicate 20 (10::real) @ [11]))
   \<and> int (length (replicate 20 (10::real))) = ENTRY_LOOKBACK
   \<and> Max (set (replicate 20 (10::real))) < 11
   \<and> generate_signal \<lparr>prices = replicate 20 10 @ [11], position = 0, last_signal = None,
                      console = []\<rparr> = Inr (Some BUY)
   \<and> Max (set (replicate 20 (10::real))) = 10
   \<and> generate_signal \<lparr>prices = replicate 20 10 @ [10], position = 0, last_signal = None,
                      console = []\<rparr> = Inr None"
  using breakout_gives_BUY [of "\<lparr>prices = replicate 20 10 @ [11], position = 0,
          last_signal = None, console = []\<rparr>" "[]" "replicate 20 10" 11]
        breakout_gives_BUY [of "\<lparr>prices = replicate 20 10 @ [10], position = 0,
          last_signal = None, console = []\<rparr>" "[]" "replicate 20 10" 10]
  by (simp add: ENTRY_LOOKBACK_def EXIT_LOOKBACK_def)

text \<open>
  \<^bold>\<open>C2.\<close> Take a history with at least \<open>max(N, M) + 1\<close> samples and let \<open>window\<close> be the
  \<open>M\<close> samples just before the newest sample \<open>close\<close>. If \<open>close\<close> is strictly below the
  minimum of \<open>window\<close> and the position is 1 (long), \<open>generate_signal\<close> returns \<open>"SELL"\<close>.
  If \<open>close\<close> equals that minimum, it returns \<open>None\<close> (whatever the position).
\<close>

theorem breakdown_gives_SELL:
  assumes "max ENTRY_LOOKBACK EXIT_LOOKBACK + 1 \<le> int (length (prices st))"
    and "prices st = older @ window @ [close]"
    and "int (length window) = EXIT_LOOKBACK"
  shows "(position st = 1 \<and> close < Min (set window) \<longrightarrow> generate_signal st = Inr (Some SELL))
       \<and> (close = Min (set window) \<longrightarrow> generate_signal st = Inr None)"
proof -
  let ?hist = "older @ window"
  let ?entry = "drop (length ?hist - 20) ?hist"
  have len: "length window = 10"
    using assms(3) by (simp add: EXIT_LOOKBACK_def)
  have long: "20 \<le> length ?hist"
    using assms(1,2) by (simp add: ENTRY_LOOKBACK_def EXIT_LOOKBACK_def)
  have exit: "drop (length ?hist - 10) ?hist = window"
    using len by simp
  have full: "generate_signal st =
      Inr (if position st = 0 \<and> Max (set ?entry) < close then Some BUY
           else if position st = 1 \<and> close < Min (set window) then Some SELL
           else None)"
    using generate_signal_full [of st ?hist close] assms(2) long
    by (simp only: exit) simp
  have "?entry = drop (length older - 10) older @ window"
    using len long by simp
  then have sub: "set window \<subseteq> set ?entry"
    by simp
  have "window \<noteq> []"
    using len by auto
  then obtain x where x: "x \<in> set window"
    by (cases window) auto
  then have "Min (set window) \<le> x"
    by simp
  moreover have "x \<in> set ?entry"
    using sub x by (rule subsetD)
  then have "x \<le> Max (set ?entry)"
    by (rule Max_ge [OF finite_set])
  ultimately have "Min (set window) \<le> Max (set ?entry)"
    by (rule order_trans)
  then show ?thesis
    by (simp add: full)
qed

text \<open>Ten samples at 12, ten at 11, then 9: a breakdown; then the same with 11 last: a tie.\<close>

theorem breakdown_gives_SELL_witness:
  "max ENTRY_LOOKBACK EXIT_LOOKBACK + 1
     \<le> int (length (replicate 10 (12::real) @ replicate 10 11 @ [9]))
   \<and> int (length (replicate 10 (11::real))) = EXIT_LOOKBACK
   \<and> 9 < Min (set (replicate 10 (11::real)))
   \<and> generate_signal \<lparr>prices = replicate 10 12 @ replicate 10 11 @ [9], position = 1,
                      last_signal = Some BUY, console = []\<rparr> = Inr (Some SELL)
   \<and> Min (set (replicate 10 (11::real))) = 11
   \<and> generate_signal \<lparr>prices = replicate 10 12 @ replicate 10 11 @ [11], position = 1,
                      last_signal = Some BUY, console = []\<rparr> = Inr None"
  using breakdown_gives_SELL [of "\<lparr>prices = replicate 10 12 @ replicate 10 11 @ [9],
          position = 1, last_signal = Some BUY, console = []\<rparr>"
          "replicate 10 12" "replicate 10 11" 9]
        breakdown_gives_SELL [of "\<lparr>prices = replicate 10 12 @ replicate 10 11 @ [11],
          position = 1, last_signal = Some BUY, console = []\<rparr>"
          "replicate 10 12" "replicate 10 11" 11]
  by (simp add: ENTRY_LOOKBACK_def EXIT_LOOKBACK_def)

text \<open>
  \<^bold>\<open>C3.\<close> On a history with fewer than \<open>max(N, M) + 1\<close> samples \<open>generate_signal\<close>
  returns \<open>None\<close>, whatever the prices and the position are.
\<close>

theorem short_history_gives_None:
  assumes "int (length (prices st)) < max ENTRY_LOOKBACK EXIT_LOOKBACK + 1"
  shows "generate_signal st = Inr None"
  using assms by (simp add: generate_signal_def MIN_HISTORY_def)

text \<open>Twenty samples, the last one above all others: still no signal.\<close>

theorem short_history_gives_None_witness:
  "int (length (replicate 19 (10::real) @ [11])) < max ENTRY_LOOKBACK EXIT_LOOKBACK + 1
   \<and> generate_signal \<lparr>prices = replicate 19 10 @ [11], position = 0, last_signal = None,
                      console = []\<rparr> = Inr None"
proof -
  have h: "int (length (replicate 19 (10::real) @ [11])) < max ENTRY_LOOKBACK EXIT_LOOKBACK + 1"
    by (simp add: ENTRY_LOOKBACK_def EXIT_LOOKBACK_def)
  show ?thesis
    using h short_history_gives_None [of "\<lparr>prices = replicate 19 10 @ [11], position = 0,
            last_signal = None, console = []\<rparr>"]
    by simp
qed

subsection \<open>The blocks of the loop body\<close>

lemma emit_simps:
  "prices (emit e st) = prices st"
  "position (emit e st) = position st"
  "last_signal (emit e st) = last_signal st"
  "console (emit e st) = console st @ [e]"
  by (simp_all add: emit_def)

lemma emitted_append: "emitted (xs @ ys) = emitted xs @ emitted ys"
  by (induction xs rule: emitted.induct) simp_all

lemma after_append_simps:
  "prices (after_append p st) =
     (if int (length (prices st)) < H_MAX then prices st @ [p] else tl (prices st) @ [p])"
  "position (after_append p st) = position st"
  "last_signal (after_append p st) = last_signal st"
  "emitted (console (after_append p st)) = emitted (console st)"
  by (simp_all add: after_append_def emitted_append)

lemma applied_simps:
  "prices (applied s price st) = prices st"
  "position (applied s price st) = (case s of BUY \<Rightarrow> 1 | SELL \<Rightarrow> 0)"
  "last_signal (applied s price st) = Some s"
  "emitted (console (applied s price st)) = emitted (console st) @ [s]"
  by (simp_all add: applied_def emitted_append)

text \<open>Lines 117 to 120 never raise: \<open>pop(0)\<close> runs on a list of more than 5000 elements.\<close>

lemma append_price_eq:
  "append_price p st =
     Inr (st\<lparr>prices := (if int (length (prices st)) < H_MAX then prices st @ [p]
                        else tl (prices st) @ [p])\<rparr>)"
proof (cases "prices st")
  case Nil
  then show ?thesis by (simp add: append_price_def H_MAX_def)
next
  case (Cons x xs)
  then show ?thesis by (simp add: append_price_def H_MAX_def)
qed

text \<open>
  \<open>send_signal_notification\<close> in one equation. It raises exactly when \<open>subprocess.run\<close>
  raised an exception whose text standard output cannot encode: the print of line 100
  then fails inside the handler. When the print of line 98 fails, the handler reports
  that failure instead, in ASCII.
\<close>

lemma send_signal_notification_eq:
  "send_signal_notification world s price st =
     (if fatal world then Inl (UnicodeEncodeError, st)
      else Inr (emit (notify_line world s price) st))"
proof (cases world)
  case (Pair run unicode)
  then show ?thesis
    by (cases run)
      (auto simp: send_signal_notification_def print_line_def fatal_def notify_line_def)
qed

text \<open>Lines 125 to 141 in one equation.\<close>

lemma handle_signal_Some:
  "handle_signal (Some s) price world st =
     (if Some s = last_signal st then Inr st
      else if fatal world then Inl (UnicodeEncodeError, applied s price st)
      else Inr (emit (notify_line world s price) (applied s price st)))"
  by (cases s) (simp_all add: handle_signal_def send_signal_notification_eq emit_def applied_def)

lemma handle_signal_None: "handle_signal None price world st = Inr st"
  by (simp add: handle_signal_def)

lemma final_handle_signal:
  "final (handle_signal sig price world st) =
     (case sig of
        None \<Rightarrow> st
      | Some s \<Rightarrow>
          if Some s = last_signal st then st
          else if fatal world then applied s price st
          else emit (notify_line world s price) (applied s price st))"
  by (cases sig) (simp_all add: handle_signal_None handle_signal_Some)

lemma handle_signal_calm:
  "\<not> fatal world \<Longrightarrow> \<exists>st'. handle_signal sig price world st = Inr st'"
  by (cases sig) (simp_all add: handle_signal_None handle_signal_Some)

lemma final_handle_signal_prices:
  "prices (final (handle_signal sig price world st)) = prices st"
  by (cases sig) (simp_all add: final_handle_signal emit_simps applied_simps)

lemma notify_line_silent: "emitted [notify_line world s price] = []"
  by (simp add: notify_line_def)

text \<open>\<open>generate_signal\<close> gates on the position: it gives \<open>"BUY"\<close> only at position 0 and
  \<open>"SELL"\<close> only at position 1, so the loop never hands lines 125 to 141 a \<open>"BUY"\<close> at
  position 1 or a \<open>"SELL"\<close> at position 0.\<close>

lemma generate_signal_gate:
  assumes "generate_signal st = Inr (Some s)"
  shows "position st = (case s of BUY \<Rightarrow> 0 | SELL \<Rightarrow> 1)"
  using assms
  by (cases s) (auto simp: generate_signal_def split: if_splits sum.splits)

lemma loop_body_None:
  "loop_body (None, world) st = Inr (st\<lparr>console := console st @ [FetchError, Sleep]\<rparr>)"
  by (simp add: loop_body_def fetch_price_def emit_def)

lemma loop_body_Some:
  assumes "generate_signal (after_append p st) = Inr sig"
  shows "loop_body (Some p, world) st =
     (case handle_signal sig p world (after_append p st) of
        Inl x \<Rightarrow> Inl x
      | Inr st3 \<Rightarrow> Inr (emit Sleep st3))"
  using assms
  by (simp add: loop_body_def fetch_price_def append_price_eq Let_def after_append_def emit_def)

lemma loop_body_Some_ex:
  "\<exists>sig. loop_body (Some p, world) st =
     (case handle_signal sig p world (after_append p st) of
        Inl x \<Rightarrow> Inl x
      | Inr st3 \<Rightarrow> Inr (emit Sleep st3))"
proof -
  obtain sig where "generate_signal (after_append p st) = Inr sig"
    using generate_signal_total by blast
  from loop_body_Some [OF this] show ?thesis by blast
qed

lemma loop_body_calm:
  assumes "\<not> fatal (snd env)"
  shows "\<exists>st'. loop_body env st = Inr st'"
proof -
  obtain reply world where Pair: "env = (reply, world)"
    by (cases env) auto
  show ?thesis
  proof (cases reply)
    case None
    with Pair show ?thesis by (simp add: loop_body_None)
  next
    case (Some p)
    obtain sig where l: "loop_body (Some p, world) st =
       (case handle_signal sig p world (after_append p st) of
          Inl x \<Rightarrow> Inl x
        | Inr st3 \<Rightarrow> Inr (emit Sleep st3))"
      using loop_body_Some_ex by blast
    from assms Pair obtain st3 where "handle_signal sig p world (after_append p st) = Inr st3"
      using handle_signal_calm [of world sig p "after_append p st"] by auto
    with l Pair Some show ?thesis by simp
  qed
qed

text \<open>A property of the state that the price line, the notification line and the sleep do
  not touch, that appending a price keeps and that lines 125 to 141 keep, holds after an
  iteration, however the iteration ends.\<close>

lemma loop_body_preserves:
  assumes P: "P st"
    and quiet: "\<And>st e. P st \<Longrightarrow> emitted [e] = [] \<Longrightarrow> P (emit e st)"
    and append: "\<And>st p. P st \<Longrightarrow> P (after_append p st)"
    and handle: "\<And>st sig p world. P st \<Longrightarrow> P (final (handle_signal sig p world st))"
  shows "P (final (loop_body env st))"
proof -
  obtain reply world where Pair: "env = (reply, world)"
    by (cases env) auto
  show ?thesis
  proof (cases reply)
    case None
    have "P (emit Sleep (emit FetchError st))"
      by (intro quiet P) simp_all
    with Pair None show ?thesis
      by (simp add: loop_body_None emit_def)
  next
    case (Some p)
    let ?a = "after_append p st"
    obtain sig where l: "loop_body (Some p, world) st =
       (case handle_signal sig p world ?a of
          Inl x \<Rightarrow> Inl x
        | Inr st3 \<Rightarrow> Inr (emit Sleep st3))"
      using loop_body_Some_ex by blast
    have h: "P (final (handle_signal sig p world ?a))"
      by (intro handle append P)
    show ?thesis
    proof (cases "handle_signal sig p world ?a")
      case (Inl x)
      with h l Pair Some show ?thesis by simp
    next
      case (Inr st3)
      with h have "P (emit Sleep st3)"
        by (intro quiet) simp_all
      with Inr l Pair Some show ?thesis by simp
    qed
  qed
qed

lemma while_loop_invariant:
  assumes step: "\<And>st env. P st \<Longrightarrow> P (final (loop_body env st))"
    and init: "P st"
  shows "P (final (while_loop envs st))"
  using init
proof (induction envs arbitrary: st)
  case Nil
  then show ?case by simp
next
  case (Cons env envs)
  from Cons.prems have s: "P (final (loop_body env st))"
    by (rule step)
  show ?case
  proof (cases "loop_body env st")
    case (Inl x)
    with s show ?thesis by simp
  next
    case (Inr st1)
    with s have "P st1" by simp
    from Cons.IH [OF this] Inr show ?thesis by simp
  qed
qed

lemma while_loop_calm:
  "calm envs \<Longrightarrow> \<exists>st'. while_loop envs st = Inr st'"
proof (induction envs arbitrary: st)
  case Nil
  then show ?case by simp
next
  case (Cons env envs)
  then have "\<not> fatal (snd env)" and c: "calm envs"
    by (simp_all add: calm_def)
  then obtain st1 where "loop_body env st = Inr st1"
    using loop_body_calm by blast
  with Cons.IH [OF c, of st1] show ?case by simp
qed

subsection \<open>The bounded history\<close>

lemma loop_body_prices:
  assumes "loop_body (reply, world) st = Inr st'"
  shows "prices st' = (case reply of None \<Rightarrow> prices st
           | Some p \<Rightarrow> if int (length (prices st)) < H_MAX then prices st @ [p]
                       else tl (prices st) @ [p])"
proof (cases reply)
  case None
  with assms show ?thesis by (auto simp: loop_body_None)
next
  case (Some p)
  let ?a = "after_append p st"
  obtain sig where l: "loop_body (Some p, world) st =
       (case handle_signal sig p world ?a of
          Inl x \<Rightarrow> Inl x
        | Inr st3 \<Rightarrow> Inr (emit Sleep st3))"
    using loop_body_Some_ex by blast
  with assms Some obtain st3 where h: "handle_signal sig p world ?a = Inr st3"
    and e: "st' = emit Sleep st3"
    by (cases "handle_signal sig p world ?a") auto
  have "prices st3 = prices ?a"
    using final_handle_signal_prices [of sig p world ?a] h by simp
  with e Some show ?thesis
    by (simp add: emit_simps after_append_simps)
qed

lemma capped_step:
  assumes "length ps \<le> n" and "0 < n"
  shows "(if length ps < n then ps @ [p] else tl ps @ [p]) = drop (length (ps @ [p]) - n) (ps @ [p])"
proof (cases "length ps < n")
  case True
  then show ?thesis by simp
next
  case False
  with assms obtain x xs where "ps = x # xs" "n = Suc (length xs)"
    by (cases ps) auto
  then show ?thesis by simp
qed

lemma capped_drop_drop:
  assumes "length ps \<le> n" and "0 < n"
  shows "drop (length (drop (length (ps @ [p]) - n) (ps @ [p]) @ rest) - n)
              (drop (length (ps @ [p]) - n) (ps @ [p]) @ rest)
         = drop (length (ps @ p # rest) - n) (ps @ p # rest)"
proof (cases "length ps < n")
  case True
  then show ?thesis by simp
next
  case False
  with assms obtain x xs where "ps = x # xs" "n = Suc (length xs)"
    by (cases ps) auto
  then show ?thesis by simp
qed

lemma while_loop_prices:
  assumes "length (prices st) \<le> 5000" and "while_loop envs st = Inr st'"
  shows "prices st' = drop (length (prices st @ fetched envs) - 5000) (prices st @ fetched envs)"
  using assms
proof (induction envs arbitrary: st)
  case Nil
  then show ?case by simp
next
  case (Cons env envs)
  obtain reply world where env: "env = (reply, world)"
    by (cases env) auto
  from Cons.prems(2) obtain st1 where st1: "loop_body (reply, world) st = Inr st1"
    and w: "while_loop envs st1 = Inr st'"
    unfolding env by (cases "loop_body (reply, world) st") auto
  note pr = loop_body_prices [OF st1]
  show ?case
  proof (cases reply)
    case None
    with pr have eq: "prices st1 = prices st" by simp
    with Cons.prems have "length (prices st1) \<le> 5000" by simp
    from Cons.IH [OF this w] show ?thesis
      using env None eq by simp
  next
    case (Some p)
    with pr have "prices st1 = (if length (prices st) < 5000 then prices st @ [p]
                       else tl (prices st) @ [p])"
      by (simp add: H_MAX_def)
    then have eq: "prices st1 = drop (length (prices st @ [p]) - 5000) (prices st @ [p])"
      using capped_step [OF Cons.prems(1), of p] by simp
    then have "length (prices st1) \<le> 5000"
      using Cons.prems(1) by simp
    from Cons.IH [OF this w]
    have p': "prices st' = drop (length (prices st1 @ fetched envs) - 5000) (prices st1 @ fetched envs)" .
    have "prices st' = drop (length (prices st @ p # fetched envs) - 5000) (prices st @ p # fetched envs)"
      unfolding p' eq by (rule capped_drop_drop [OF Cons.prems(1)]) simp
    then show ?thesis
      using env Some by simp
  qed
qed

lemma while_loop_capped:
  assumes "length (prices st) \<le> 5000"
  shows "length (prices (final (while_loop envs st))) \<le> 5000"
proof (rule while_loop_invariant [where P = "\<lambda>st. length (prices st) \<le> 5000", OF _ assms])
  fix st :: monitor and env
  assume c: "length (prices st) \<le> 5000"
  show "length (prices (final (loop_body env st))) \<le> 5000"
  proof (rule loop_body_preserves [where P = "\<lambda>st. length (prices st) \<le> 5000", OF c])
    fix st :: monitor and e
    assume "length (prices st) \<le> 5000"
    then show "length (prices (emit e st)) \<le> 5000"
      by (simp add: emit_simps)
  next
    fix st :: monitor and p
    assume "length (prices st) \<le> 5000"
    then show "length (prices (after_append p st)) \<le> 5000"
      by (cases "prices st") (auto simp: after_append_simps H_MAX_def)
  next
    fix st :: monitor and sig p world
    assume "length (prices st) \<le> 5000"
    then show "length (prices (final (handle_signal sig p world st))) \<le> 5000"
      by (simp add: final_handle_signal_prices)
  qed
qed

text \<open>
  \<^bold>\<open>C4.\<close> Start from a history within the cap \<open>H_MAX\<close> (the empty history of a fresh
  program is one). A single append (lines 117 to 120) never raises: below the cap it adds
  the sample at the end and evicts nothing, at the cap it evicts exactly the oldest
  sample and adds the new one at the end; either way the length stays within the cap.
  After any number of ticks, however the run ends, the length of the history is within
  the cap. A run that is still going after the ticks holds the last \<open>H_MAX\<close> elements, in
  their order, of the old history followed by the prices fetched; a run with no fatal
  notification is still going.
\<close>

theorem history_capped_fifo:
  assumes "int (length (prices st)) \<le> H_MAX"
  shows "(\<exists>st'. append_price p st = Inr st'
            \<and> prices st' = (if int (length (prices st)) < H_MAX then prices st @ [p]
                            else tl (prices st) @ [p])
            \<and> int (length (prices st')) \<le> H_MAX)
       \<and> int (length (prices (final (while_loop envs st)))) \<le> H_MAX
       \<and> (\<forall>st'. while_loop envs st = Inr st' \<longrightarrow>
            prices st' = drop (length (prices st @ fetched envs) - nat H_MAX)
                              (prices st @ fetched envs))
       \<and> (calm envs \<longrightarrow>
           (\<exists>st'. while_loop envs st = Inr st'
              \<and> prices st' = drop (length (prices st @ fetched envs) - nat H_MAX)
                                   (prices st @ fetched envs)
              \<and> int (length (prices st')) \<le> H_MAX))"
proof -
  from assms have c: "length (prices st) \<le> 5000"
    by (simp add: H_MAX_def)
  have one: "\<exists>st'. append_price p st = Inr st'
            \<and> prices st' = (if int (length (prices st)) < H_MAX then prices st @ [p]
                            else tl (prices st) @ [p])
            \<and> int (length (prices st')) \<le> H_MAX"
    using assms by (simp add: append_price_eq H_MAX_def)
  have cap: "int (length (prices (final (while_loop envs st)))) \<le> H_MAX"
    using while_loop_capped [OF c, of envs] by (simp add: H_MAX_def)
  have fifo: "prices st' = drop (length (prices st @ fetched envs) - nat H_MAX)
                              (prices st @ fetched envs)"
    if "while_loop envs st = Inr st'" for st'
    using while_loop_prices [OF c that] by (simp add: H_MAX_def)
  have run: "\<exists>st'. while_loop envs st = Inr st'
              \<and> prices st' = drop (length (prices st @ fetched envs) - nat H_MAX)
                                   (prices st @ fetched envs)
              \<and> int (length (prices st')) \<le> H_MAX"
    if "calm envs"
  proof -
    from that obtain st' where r: "while_loop envs st = Inr st'"
      using while_loop_calm by blast
    with cap have "int (length (prices st')) \<le> H_MAX" by simp
    with r fifo [OF r] show ?thesis by blast
  qed
  from one cap fifo run show ?thesis by blast
qed

text \<open>A history of 5000 samples: one append evicts one sample, three ticks with two prices
  evict two.\<close>

theorem history_capped_fifo_witness:
  "int (length (replicate 5000 (1::real))) \<le> H_MAX
   \<and> calm [(Some 2, Completed, True), (None, Completed, True), (Some 3, Raised False, False)]
   \<and> (\<exists>st'. append_price 2 \<lparr>prices = replicate 5000 1, position = 0, last_signal = None,
                            console = []\<rparr> = Inr st'
          \<and> prices st' = replicate 4999 1 @ [2])
   \<and> (\<exists>st'. while_loop [(Some 2, Completed, True), (None, Completed, True),
                        (Some 3, Raised False, False)]
              \<lparr>prices = replicate 5000 1, position = 0, last_signal = None,
                 console = []\<rparr> = Inr st'
          \<and> prices st' = replicate 4998 1 @ [2, 3])"
proof -
  have c: "calm [(Some 2, Completed, True), (None, Completed, True), (Some 3, Raised False, False)]"
    by (simp add: calm_def fatal_def)
  show ?thesis
    using c history_capped_fifo [of "\<lparr>prices = replicate 5000 1, position = 0,
          last_signal = None, console = []\<rparr>" 2
          "[(Some 2, Completed, True), (None, Completed, True), (Some 3, Raised False, False)]"]
    by (simp add: H_MAX_def del: while_loop.simps) blast
qed

subsection \<open>Debouncing\<close>

text \<open>
  \<^bold>\<open>C6.\<close> For every candidate signal and every value of \<open>last_signal\<close>, \<open>None\<close> included,
  the block of lines 125 to 141 fires (prints the signal block for the candidate) if and
  only if the candidate differs from \<open>last_signal\<close>; it returns with the state untouched if
  and only if the two are equal. The block returns normally unless the notification is
  fatal.
\<close>

theorem debounce_fires_iff_new:
  "(emitted (console (final (handle_signal (Some c) price world st))) = emitted (console st) @ [c]
      \<longleftrightarrow> Some c \<noteq> last_signal st)
   \<and> (handle_signal (Some c) price world st = Inr st \<longleftrightarrow> Some c = last_signal st)
   \<and> (\<not> fatal world \<longrightarrow>
        (\<exists>st'. handle_signal (Some c) price world st = Inr st'
           \<and> (emitted (console st') = emitted (console st) @ [c] \<longleftrightarrow> Some c \<noteq> last_signal st)
           \<and> (st' = st \<longleftrightarrow> Some c = last_signal st)))"
proof (cases "Some c = last_signal st")
  case True
  then show ?thesis
    unfolding handle_signal_Some by simp
next
  case False
  let ?line = "notify_line world c price"
  have "console (emit ?line (applied c price st)) \<noteq> console st"
    by (simp add: emit_def applied_def)
  then have ne: "emit ?line (applied c price st) \<noteq> st"
    by metis
  have em: "emitted (console (emit ?line (applied c price st))) = emitted (console st) @ [c]"
    by (simp add: emit_simps emitted_append applied_simps notify_line_silent)
  show ?thesis
  proof (cases "fatal world")
    case True
    with False show ?thesis
      unfolding handle_signal_Some by (simp add: applied_simps)
  next
    case nf: False
    with False ne em show ?thesis
      unfolding handle_signal_Some by simp
  qed
qed

text \<open>\<open>"BUY"\<close> after \<open>"BUY"\<close> is suppressed; \<open>"SELL"\<close> after \<open>"BUY"\<close> fires, also when the
  notification is fatal.\<close>

theorem debounce_fires_iff_new_witness:
  "handle_signal (Some BUY) 11 (Completed, True)
      \<lparr>prices = [], position = 1, last_signal = Some BUY, console = []\<rparr>
     = Inr \<lparr>prices = [], position = 1, last_signal = Some BUY, console = []\<rparr>
   \<and> \<not> fatal (Completed, True)
   \<and> (\<exists>st'. handle_signal (Some SELL) 9 (Completed, True)
        \<lparr>prices = [], position = 1, last_signal = Some BUY, console = []\<rparr> = Inr st'
        \<and> emitted (console st') = [SELL]
        \<and> st' \<noteq> \<lparr>prices = [], position = 1, last_signal = Some BUY, console = []\<rparr>)
   \<and> emitted (console (final (handle_signal (Some SELL) 9 (Raised True, False)
        \<lparr>prices = [], position = 1, last_signal = Some BUY, console = []\<rparr>))) = [SELL]"
proof -
  have nf: "\<not> fatal (Completed, True)"
    by (simp add: fatal_def)
  show ?thesis
    using nf
      debounce_fires_iff_new [of BUY 11 "(Completed, True)"
        "\<lparr>prices = [], position = 1, last_signal = Some BUY, console = []\<rparr>"]
      debounce_fires_iff_new [of SELL 9 "(Completed, True)"
        "\<lparr>prices = [], position = 1, last_signal = Some BUY, console = []\<rparr>"]
      debounce_fires_iff_new [of SELL 9 "(Raised True, False)"
        "\<lparr>prices = [], position = 1, last_signal = Some BUY, console = []\<rparr>"]
    by (simp add: fatal_def)
qed

subsection \<open>Invariants of the loop\<close>

lemma debounced_cong:
  assumes "debounced st" and "emitted (console st') = emitted (console st)"
    and "last_signal st' = last_signal st"
  shows "debounced st'"
  using assms by (simp add: debounced_def)

lemma debounced_applied:
  assumes "debounced st" and "Some s \<noteq> last_signal st"
  shows "debounced (applied s price st)"
proof -
  from assms have "emitted (console st) = [] \<or> last (emitted (console st)) \<noteq> s"
    by (auto simp: debounced_def)
  with assms(1) show ?thesis
    by (auto simp: debounced_def applied_simps distinct_adj_append_iff)
qed

lemma loop_body_debounced:
  assumes "debounced st"
  shows "debounced (final (loop_body env st))"
proof (rule loop_body_preserves [where P = debounced, OF assms])
  fix st e
  assume d: "debounced st" and e: "emitted [e] = []"
  show "debounced (emit e st)"
    using d by (rule debounced_cong) (simp_all add: emit_simps emitted_append e)
next
  fix st p
  assume "debounced st"
  then show "debounced (after_append p st)"
    by (rule debounced_cong) (simp_all add: after_append_simps)
next
  fix st sig p world
  assume d: "debounced st"
  show "debounced (final (handle_signal sig p world st))"
  proof (cases sig)
    case None
    with d show ?thesis by (simp add: final_handle_signal)
  next
    case (Some s)
    show ?thesis
    proof (cases "Some s = last_signal st")
      case True
      from d show ?thesis
        unfolding Some final_handle_signal using True [symmetric] by simp
    next
      case False
      with d have a: "debounced (applied s p st)"
        by (rule debounced_applied)
      then have "debounced (emit (notify_line world s p) (applied s p st))"
        by (rule debounced_cong)
          (simp_all add: emit_simps emitted_append notify_line_silent)
      with a False Some show ?thesis
        by (simp add: final_handle_signal)
    qed
  qed
qed

lemma in_step_cong:
  assumes "in_step st" and "position st' = position st"
    and "last_signal st' = last_signal st"
  shows "in_step st'"
  using assms by (simp add: in_step_def)

text \<open>Lines 127 to 132 set \<open>last_signal\<close> and \<open>position\<close> together.\<close>

lemma in_step_applied: "in_step (applied s price st)"
  by (cases s) (simp_all add: in_step_def applied_simps)

lemma loop_body_in_step:
  assumes "in_step st"
  shows "in_step (final (loop_body env st))"
proof (rule loop_body_preserves [where P = in_step, OF assms])
  fix st e
  assume "in_step st"
  then show "in_step (emit e st)"
    by (rule in_step_cong) (simp_all add: emit_simps)
next
  fix st p
  assume "in_step st"
  then show "in_step (after_append p st)"
    by (rule in_step_cong) (simp_all add: after_append_simps)
next
  fix st sig p world
  assume i: "in_step st"
  have "in_step (emit (notify_line world s p) (applied s p st))" for s
    by (rule in_step_cong [OF in_step_applied]) (simp_all add: emit_simps)
  with i show "in_step (final (handle_signal sig p world st))"
    by (cases sig) (simp_all add: final_handle_signal in_step_applied)
qed

text \<open>The run \<open>round_trip\<close> from the initial state: a \<open>"BUY"\<close>, then a \<open>"SELL"\<close>.\<close>

lemma round_trip_run:
  "(case main_loop round_trip initial of
      Inl x \<Rightarrow> False
    | Inr st' \<Rightarrow> emitted (console st') = [BUY, SELL] \<and> position st' = 0
                 \<and> last_signal st' = Some SELL \<and> length (prices st') = 32)"
  by code_simp

lemma round_trip_calm: "calm round_trip"
  by (auto simp: calm_def round_trip_def fatal_def list_all_iff)

text \<open>
  \<^bold>\<open>C7.\<close> Whatever the outside world does, and for any number of ticks, the signals
  emitted by the program started in its initial state never contain the same signal
  twice in a row, however the run ends: a \<open>"BUY"\<close> is followed, if at all, by a \<open>"SELL"\<close>,
  and a \<open>"SELL"\<close> by a \<open>"BUY"\<close>. With no fatal notification the program does not raise.
\<close>

theorem emitted_signals_alternate:
  "distinct_adj (emitted (console (final (main_loop envs initial))))
   \<and> (calm envs \<longrightarrow>
        (\<exists>st'. main_loop envs initial = Inr st' \<and> distinct_adj (emitted (console st'))))"
proof -
  have "debounced (emit Banner initial)"
    by (simp add: debounced_def emit_def initial_def)
  with loop_body_debounced
  have "debounced (final (while_loop envs (emit Banner initial)))"
    by (rule while_loop_invariant)
  then have d: "distinct_adj (emitted (console (final (main_loop envs initial))))"
    by (simp add: main_loop_def debounced_def)
  have "\<exists>st'. main_loop envs initial = Inr st'" if "calm envs"
    using while_loop_calm [OF that] by (simp add: main_loop_def)
  with d show ?thesis by auto
qed

text \<open>The run \<open>round_trip\<close> emits \<open>"BUY"\<close> and then \<open>"SELL"\<close>.\<close>

theorem emitted_signals_alternate_witness:
  "calm round_trip
   \<and> (\<exists>st'. main_loop round_trip initial = Inr st' \<and> emitted (console st') = [BUY, SELL]
        \<and> distinct_adj (emitted (console st')))"
  using emitted_signals_alternate [of round_trip] round_trip_run round_trip_calm
  by (auto split: sum.splits)

text \<open>
  \<^bold>\<open>C10.\<close> After any number of ticks from the initial state, however the run ends, the
  position is 1 exactly when the last emitted signal is \<open>"BUY"\<close>, and 0 exactly when it is
  \<open>"SELL"\<close> or \<open>None\<close>. With no fatal notification the program does not raise.
\<close>

theorem position_tracks_last_signal:
  "(position (final (main_loop envs initial)) = 1
      \<longleftrightarrow> last_signal (final (main_loop envs initial)) = Some BUY)
   \<and> (position (final (main_loop envs initial)) = 0
      \<longleftrightarrow> last_signal (final (main_loop envs initial)) = Some SELL
          \<or> last_signal (final (main_loop envs initial)) = None)
   \<and> (calm envs \<longrightarrow>
        (\<exists>st'. main_loop envs initial = Inr st'
           \<and> (position st' = 1 \<longleftrightarrow> last_signal st' = Some BUY)
           \<and> (position st' = 0 \<longleftrightarrow> last_signal st' = Some SELL \<or> last_signal st' = None)))"
proof -
  let ?f = "final (main_loop envs initial)"
  have "in_step (emit Banner initial)"
    by (simp add: in_step_def emit_def initial_def)
  with loop_body_in_step
  have "in_step (final (while_loop envs (emit Banner initial)))"
    by (rule while_loop_invariant)
  then have i: "in_step ?f"
    by (simp add: main_loop_def)
  have "last_signal ?f = Some SELL \<or> last_signal ?f = None \<longleftrightarrow> last_signal ?f \<noteq> Some BUY"
    by (cases "last_signal ?f") (auto intro: signal.exhaust)
  with i have p: "(position ?f = 1 \<longleftrightarrow> last_signal ?f = Some BUY)
     \<and> (position ?f = 0 \<longleftrightarrow> last_signal ?f = Some SELL \<or> last_signal ?f = None)"
    by (auto simp: in_step_def)
  have "\<exists>st'. main_loop envs initial = Inr st'" if "calm envs"
    using while_loop_calm [OF that] by (simp add: main_loop_def)
  with p show ?thesis by auto
qed

text \<open>After the run \<open>round_trip\<close> the position is 0 and the last signal is \<open>"SELL"\<close>.\<close>

theorem position_tracks_last_signal_witness:
  "calm round_trip
   \<and> (\<exists>st'. main_loop round_trip initial = Inr st' \<and> position st' = 0
        \<and> last_signal st' = Some SELL)"
  using position_tracks_last_signal [of round_trip] round_trip_run round_trip_calm
  by (auto split: sum.splits)

subsection \<open>Failures of the collaborators\<close>



text \<open>
  \<^bold>\<open>C9.\<close> The specification asks that a failure of the notification be not fatal. The
  \<open>try\<close> of \<open>send_signal_notification\<close> is there for that, but the print of line 100 sits
  in the handler, outside it. On an ASCII standard output, twenty prices of 10 and a
  breakout to 11 for which \<open>openclaw\<close> exits with a non-zero status end the program with
  \<open>UnicodeEncodeError\<close>: the transition is applied (position 1, last signal \<open>"BUY"\<close>), and
  the loop is dead. The same run with \<open>openclaw\<close> missing, an exception whose text is
  ASCII, goes on.
\<close>

theorem notify_failure_kills_main_loop:
  "(case main_loop ascii_breakout initial of
      Inl (e, st) \<Rightarrow> e = UnicodeEncodeError \<and> position st = 1 \<and> last_signal st = Some BUY
                     \<and> emitted (console st) = [BUY]
    | Inr st \<Rightarrow> False)
   \<and> (case main_loop (replicate 20 (Some 10, Completed, False) @ [(Some 11, Raised False, False)])
             initial of
      Inl x \<Rightarrow> False
    | Inr st \<Rightarrow> position st = 1 \<and> last_signal st = Some BUY \<and> emitted (console st) = [BUY])"
  by code_simp

end
